theory Spec2Isabelle
  imports Main
begin

section \<open>The prompter package: a shallow embedding of prompter.go\<close>

text \<open>
  The package has one type, \<open>Prompter\<close>, and one exported operation, \<open>Prompt\<close>,
  with the helpers \<open>skip\<close>, \<open>msg\<close>, \<open>errorMsg\<close>, \<open>inputIsValid\<close> and \<open>regexp\<close>.
  Go strings are byte strings and are modelled as \<open>string\<close>. The functions of the
  standard library that the package calls (\<open>strconv\<close>, \<open>strings\<close>, \<open>regexp\<close>) are
  modelled first, as far as the package uses them; the model of these is exact on ASCII
  text (pattern compilation of text that is not valid UTF-8 and case folding beyond
  ASCII letters are the library's own and are not modelled).
\<close>

subsection \<open>Characters\<close>

definition newline :: char where
  "newline = CHR 0x0A"

definition carriage_return :: char where
  "carriage_return = CHR 0x0D"

definition backslash :: char where
  "backslash = CHR 0x5C"

definition escape :: char where
  "escape = CHR 0x1B"

definition isDigit :: "char \<Rightarrow> bool" where
  "isDigit c = (48 \<le> (of_char c :: int) \<and> (of_char c :: int) \<le> 57)"

definition inRange :: "char \<Rightarrow> char \<Rightarrow> char \<Rightarrow> bool" where
  "inRange lo hi c = ((of_char lo :: int) \<le> of_char c \<and> (of_char c :: int) \<le> of_char hi)"

definition toLower :: "char \<Rightarrow> char" where
  "toLower c = (if 65 \<le> (of_char c :: int) \<and> (of_char c :: int) \<le> 90
                then char_of ((of_char c :: int) + 32) else c)"

definition foldEq :: "char \<Rightarrow> char \<Rightarrow> bool" where
  "foldEq c d = (toLower c = toLower d)"

subsection \<open>strconv: Itoa and Atoi\<close>

text \<open>
  \<open>strconv.Itoa\<close> writes an integer in decimal, with a leading \<open>-\<close> when it is
  negative. \<open>fmt.Sprintf\<close> with the verb \<open>%d\<close> produces the same text.
\<close>

definition digitChar :: "int \<Rightarrow> char" where
  "digitChar d = char_of (48 + d)"

function formatBits :: "int \<Rightarrow> string" where
  "formatBits n = (if n < 10 then [digitChar n] else formatBits (n div 10) @ [digitChar (n mod 10)])"
  by pat_completeness auto
termination
  by (relation "measure nat") auto

definition Itoa :: "int \<Rightarrow> string" where
  "Itoa i = (if i < 0 then CHR ''-'' # formatBits (- i) else formatBits i)"

text \<open>
  \<open>strconv.Atoi s\<close> is \<open>ParseInt(s, 10, 0)\<close>: the empty string is a syntax error; one
  leading \<open>+\<close> or \<open>-\<close> is a sign; what follows must be one or more ASCII digits,
  anything else is a syntax error; a value outside the 64-bit \<open>int\<close> is a range error.
  The error is \<open>None\<close> here, since the package only tests \<open>err != nil\<close>.
\<close>

fun parseDigits :: "string \<Rightarrow> int \<Rightarrow> int option" where
  "parseDigits [] n = Some n"
| "parseDigits (c # cs) n =
     (if isDigit c then parseDigits cs (n * 10 + ((of_char c :: int) - 48)) else None)"

definition Atoi :: "string \<Rightarrow> int option" where
  "Atoi s =
     (case s of
        [] \<Rightarrow> None
      | c # cs \<Rightarrow>
          (let neg = (c = CHR ''-'');
               body = (if c = CHR ''-'' \<or> c = CHR ''+'' then cs else s)
           in if body = [] then None
              else (case parseDigits body 0 of
                      None \<Rightarrow> None
                    | Some n \<Rightarrow>
                        if neg then (if 2 ^ 63 < n then None else Some (- n))
                        else (if 2 ^ 63 \<le> n then None else Some n))))"

subsection \<open>strings: Join and TrimRight\<close>

fun Join :: "string list \<Rightarrow> string \<Rightarrow> string" where
  "Join [] sep = []"
| "Join [x] sep = x"
| "Join (x # y # ys) sep = x @ sep @ Join (y # ys) sep"

definition TrimRight :: "string \<Rightarrow> string \<Rightarrow> string" where
  "TrimRight s cutset = rev (dropWhile (\<lambda>c. c \<in> set cutset) (rev s))"

subsection \<open>regexp: patterns and MatchString\<close>

text \<open>
  The syntax trees of the patterns the package compiles. \<open>rmatch r pre m post\<close> says
  that \<open>r\<close> matches the piece \<open>m\<close> of the text \<open>pre @ m @ post\<close>; \<open>BeginText\<close> is
  \<open>\A\<close>, \<open>EndText\<close> is \<open>\z\<close>, \<open>AnyCharNotNL\<close> is the dot, \<open>FoldLit\<close> is a literal
  under the flag \<open>(?i)\<close>, \<open>CharRange\<close> is a class such as \<open>[0-9]\<close>.
\<close>

datatype pattern =
    EmptyMatch
  | Lit char
  | FoldLit char
  | CharRange char char
  | AnyCharNotNL
  | BeginText
  | EndText
  | Concat pattern pattern
  | Alternate pattern pattern
  | Star pattern

function rmatch :: "pattern \<Rightarrow> string \<Rightarrow> string \<Rightarrow> string \<Rightarrow> bool" where
  "rmatch EmptyMatch pre m post = (m = [])"
| "rmatch (Lit c) pre m post = (m = [c])"
| "rmatch (FoldLit c) pre m post = (case m of [d] \<Rightarrow> foldEq c d | _ \<Rightarrow> False)"
| "rmatch (CharRange lo hi) pre m post = (case m of [d] \<Rightarrow> inRange lo hi d | _ \<Rightarrow> False)"
| "rmatch AnyCharNotNL pre m post = (case m of [d] \<Rightarrow> d \<noteq> newline | _ \<Rightarrow> False)"
| "rmatch BeginText pre m post = (m = [] \<and> pre = [])"
| "rmatch EndText pre m post = (m = [] \<and> post = [])"
| "rmatch (Concat r1 r2) pre m post =
     (\<exists>k\<in>{0..length m}. rmatch r1 pre (take k m) (drop k m @ post)
                        \<and> rmatch r2 (pre @ take k m) (drop k m) post)"
| "rmatch (Alternate r1 r2) pre m post = (rmatch r1 pre m post \<or> rmatch r2 pre m post)"
| "rmatch (Star r) pre m post =
     (m = [] \<or> (\<exists>k\<in>{1..length m}. rmatch r pre (take k m) (drop k m @ post)
                        \<and> rmatch (Star r) (pre @ take k m) (drop k m) post))"
  by pat_completeness auto
termination
  by (relation "measures [\<lambda>(r, pre, m, post). size r, \<lambda>(r, pre, m, post). length m]") auto

text \<open>
  \<open>MatchString\<close> reports whether the text contains any match of the pattern: the
  match may begin and end anywhere unless the pattern anchors it.
\<close>

definition search :: "pattern \<Rightarrow> string \<Rightarrow> bool" where
  "search r s =
     (\<exists>i\<in>{0..length s}. \<exists>j\<in>{i..length s}.
        rmatch r (take i s) (take (j - i) (drop i s)) (drop j s))"

text \<open>
  A compiled \<open>*regexp.Regexp\<close>: its source text (what \<open>String()\<close> and the verb \<open>%s\<close>
  print) and what \<open>MatchString\<close> answers. A pattern supplied by the caller is any such
  value; the patterns the package compiles itself get the answer of \<open>search\<close> on their
  syntax tree.
\<close>

datatype regexp = Compiled (String: string) (MatchString: "string \<Rightarrow> bool")

definition MustCompile :: "string \<Rightarrow> pattern \<Rightarrow> regexp" where
  "MustCompile src tree = Compiled src (search tree)"

text \<open>
  \<open>regexp.QuoteMeta\<close> puts a backslash before each of the characters
  \<open>\.+*?()|[]{}^$\<close>; the quoted text parses to the literal characters of the
  original, one after the other (\<open>literal\<close>).
\<close>

definition special :: "char \<Rightarrow> bool" where
  "special c = (c \<in> set (backslash # ''.+*?()|[]{}^$''))"

fun QuoteMeta :: "string \<Rightarrow> string" where
  "QuoteMeta [] = []"
| "QuoteMeta (c # cs) = (if special c then backslash # c # QuoteMeta cs else c # QuoteMeta cs)"

fun literal :: "bool \<Rightarrow> string \<Rightarrow> pattern" where
  "literal ic [] = EmptyMatch"
| "literal ic (c # cs) = Concat (if ic then FoldLit c else Lit c) (literal ic cs)"

fun alternation :: "pattern list \<Rightarrow> pattern" where
  "alternation [] = EmptyMatch"
| "alternation [r] = r"
| "alternation (r # r' # rs) = Alternate r (alternation (r' # rs))"

subsection \<open>The Prompter and its surroundings\<close>

text \<open>
  The struct \<open>Prompter\<close>. A nil slice and an empty slice of choices are the same
  list; a nil \<open>*regexp.Regexp\<close> is \<open>None\<close>. \<open>DefaultMenuItem\<close> is a Go \<open>int\<close>; the
  package does no arithmetic on it. The unexported field \<open>reg\<close> caches the rule
  that \<open>regexp\<close> derives; it is nil in every Prompter a caller constructs.
\<close>

record Prompter =
  Message :: string
  Choices :: "string list"
  IgnoreCase :: bool
  Default :: string
  DefaultMenuItem :: int
  Regexp :: "regexp option"
  NoEcho :: bool
  UseDefault :: bool
  IsMenu :: bool
  MenuPrompt :: string
  reg :: "regexp option"

text \<open>
  What \<open>Prompt\<close> reaches outside the Prompter: the environment variable
  \<open>GO_PROMPTER_USE_DEFAULT\<close> (empty when unset), whether standard input and standard
  output are terminals, the outcomes of the reads still to come from standard input
  (\<open>Some\<close> text for a read that delivers a line, without its line feed; \<open>None\<close> for a
  read that fails; every read after the last listed one fails, as at the end of the
  input), the number of reads attempted so far, and what has been written to standard
  output and standard error.
\<close>

record world =
  GO_PROMPTER_USE_DEFAULT :: string
  stdin_isatty :: bool
  stdout_isatty :: bool
  stdin :: "string option list"
  reads :: nat
  stdout :: string
  stderr :: string

definition Print :: "string \<Rightarrow> world \<Rightarrow> world" where
  "Print s w = w\<lparr>stdout := stdout w @ s\<rparr>"

definition Println :: "string \<Rightarrow> world \<Rightarrow> world" where
  "Println s w = w\<lparr>stdout := stdout w @ s @ [newline]\<rparr>"

definition print_stderr :: "string \<Rightarrow> world \<Rightarrow> world" where
  "print_stderr s w = w\<lparr>stderr := stderr w @ s\<rparr>"

text \<open>
  One read from standard input: \<open>scanner.Scan()\<close> with \<open>scanner.Text()\<close>, or
  \<open>terminal.ReadPassword\<close>. The result is \<open>None\<close> when \<open>Scan\<close> answers false or
  \<open>ReadPassword\<close> returns an error.
\<close>

definition readLine :: "world \<Rightarrow> string option \<times> world" where
  "readLine w =
     (case stdin w of
        [] \<Rightarrow> (None, w\<lparr>reads := Suc (reads w)\<rparr>)
      | r # rest \<Rightarrow> (r, w\<lparr>stdin := rest, reads := Suc (reads w)\<rparr>))"

subsection \<open>skip\<close>

definition skip :: "world \<Rightarrow> bool" where
  "skip w =
     (if GO_PROMPTER_USE_DEFAULT w \<noteq> [] then True
      else \<not> stdin_isatty w \<or> \<not> stdout_isatty w)"

subsection \<open>msg\<close>

fun menuLines :: "nat \<Rightarrow> string list \<Rightarrow> string \<Rightarrow> string" where
  "menuLines i [] msg = msg"
| "menuLines i (choice # rest) msg =
     menuLines (Suc i) rest (msg @ '' ['' @ Itoa (int i + 1) @ ''] '' @ choice @ [newline])"

definition msg :: "Prompter \<Rightarrow> string" where
  "msg p =
     (if IsMenu p then
        (let msg = Message p @ [newline];
             msg = msg @ ''---'' @ [newline];
             msg = (if length (Choices p) > 0 then menuLines 0 (Choices p) msg else msg);
             msg = (if MenuPrompt p = [] then msg @ ''Choose'' else msg @ MenuPrompt p);
             msg = (if DefaultMenuItem p \<noteq> 0
                    then msg @ '' ['' @ Itoa (DefaultMenuItem p) @ '']'' else msg)
         in msg @ '': '')
      else
        (let msg = Message p;
             msg = (if length (Choices p) > 0
                    then msg @ '' ('' @ Join (Choices p) ''/'' @ '')'' else msg);
             msg = (if Default p \<noteq> [] then msg @ '' ['' @ Default p @ '']'' else msg)
         in msg @ '': ''))"

subsection \<open>errorMsg\<close>

definition errorMsg :: "Prompter \<Rightarrow> string" where
  "errorMsg p =
     (case Regexp p of
        Some r \<Rightarrow> ''# Answer should match /'' @ String r @ ''/''
      | None \<Rightarrow>
          if length (Choices p) > 0 then
            (if \<not> IsMenu p then
               (if length (Choices p) = 1 then ''# Enter `'' @ Choices p ! 0 @ ''`''
                else
                  (let choices = map (\<lambda>v. ''`'' @ v @ ''`'')
                                   (take (length (Choices p) - 1) (Choices p))
                   in ''# Enter '' @ Join choices '', '' @ '' or `''
                        @ Choices p ! (length (Choices p) - 1) @ ''`''))
             else [])
          else [])"

subsection \<open>regexp and inputIsValid\<close>

definition allReg :: regexp where
  "allReg = MustCompile ''.*'' (Star AnyCharNotNL)"

text \<open>
  The pattern \<open>[0-9]{2,}|[1-9]{1}\<close>: two digits followed by any number of digits,
  or one digit from 1 to 9.
\<close>

definition numReg :: regexp where
  "numReg = MustCompile ''[0-9]{2,}|[1-9]{1}''
     (Alternate
        (Concat (CharRange CHR ''0'' CHR ''9'')
           (Concat (CharRange CHR ''0'' CHR ''9'') (Star (CharRange CHR ''0'' CHR ''9''))))
        (CharRange CHR ''1'' CHR ''9''))"

text \<open>
  \<open>regexp\<close> returns the rule and the Prompter with the rule cached in \<open>reg\<close>. The
  rule of a choice list is the text
  \<open>fmt.Sprintf(`%s\A(?:%s)\z`, ignoreReg, strings.Join(choices, "|"))\<close>, compiled.
\<close>

definition regexp :: "Prompter \<Rightarrow> regexp \<times> Prompter" where
  "regexp p =
     (case Regexp p of
        Some r \<Rightarrow> (r, p)
      | None \<Rightarrow>
          (case reg p of
             Some r \<Rightarrow> (r, p)
           | None \<Rightarrow>
               if length (Choices p) = 0 then (allReg, p\<lparr>reg := Some allReg\<rparr>)
               else if IsMenu p then (numReg, p\<lparr>reg := Some numReg\<rparr>)
               else
                 (let choices = map QuoteMeta (Choices p);
                      ignoreReg = (if IgnoreCase p then ''(?i)'' else []);
                      r = MustCompile
                            (ignoreReg @ backslash # ''A(?:'' @ Join choices ''|'' @ '')''
                               @ [backslash, CHR ''z''])
                            (Concat BeginText
                               (Concat (alternation (map (literal (IgnoreCase p)) (Choices p)))
                                  EndText))
                  in (r, p\<lparr>reg := Some r\<rparr>))))"

definition inputIsValid :: "Prompter \<Rightarrow> string \<Rightarrow> bool \<times> Prompter" where
  "inputIsValid p0 input =
     (let (r, p) = regexp p0;
          rx = MatchString r input
      in if \<not> IsMenu p \<or> \<not> rx then (rx, p)
         else (case Atoi input of
                 None \<Rightarrow> (False, p)
               | Some it \<Rightarrow>
                   if it > int (length (Choices p)) + 1 then (False, p) else (True, p)))"

subsection \<open>Prompt\<close>

text \<open>
  \<open>Prompt\<close> returns the answer, the Prompter (whose \<open>reg\<close> may now be set) and the
  world after its reads and writes. It calls itself after an invalid answer, so it
  need not return: not returning is \<open>None\<close>. Two blocks of its body have a name
  here: \<open>readInput\<close> is the block that reads \<open>input\<close>, with or without echo, and
  \<open>retry\<close> is what is written after an invalid answer, before \<open>Prompt\<close> calls itself.
\<close>

definition readInput :: "Prompter \<Rightarrow> world \<Rightarrow> string \<times> world" where
  "readInput p w1 =
     (if NoEcho p then
        (let (b, w) = readLine w1;
             input = (case b of Some t \<Rightarrow> t | None \<Rightarrow> [])
         in (input, Print [newline] w))
      else
        (let (t, w) = readLine w1;
             input = (case t of Some t \<Rightarrow> TrimRight t [carriage_return, newline]
                      | None \<Rightarrow> [])
         in (input, w)))"

definition retry :: "Prompter \<Rightarrow> world \<Rightarrow> world" where
  "retry p w2 =
     (let w3 = Println (errorMsg p) w2
      in if IsMenu p then print_stderr (escape # ''[H'' @ escape # ''[2J'') w3 else w3)"

partial_function (option) Prompt :: "Prompter \<Rightarrow> world \<Rightarrow> (string \<times> Prompter \<times> world) option" where
  "Prompt p w0 =
     (let w1 = Print (msg p) w0 in
      if UseDefault p \<or> skip w1 then Some (Default p, p, w1)
      else
        (let (input, w2) = readInput p w1;
             input = (if input = [] then
                        (if IsMenu p then Itoa (DefaultMenuItem p) else Default p)
                      else input);
             (ok, p') = inputIsValid p input
         in if \<not> ok then Prompt p' (retry p' w2)
            else Some (input, p', w2)))"

declare Prompt.simps [code]

subsection \<open>Prompters whose cached rule is the rule of their configuration\<close>

text \<open>
  \<open>regexp\<close> trusts the cache. \<open>regCoherent p\<close> holds when \<open>reg\<close> is nil, as in every
  Prompter a caller constructs, or holds the rule that \<open>regexp\<close> derives from the
  present configuration, as after a call of \<open>Prompt\<close> on an unchanged Prompter.
\<close>

definition regCoherent :: "Prompter \<Rightarrow> bool" where
  "regCoherent p = (case reg p of None \<Rightarrow> True | Some r \<Rightarrow> r = fst (regexp (p\<lparr>reg := None\<rparr>)))"

subsection \<open>Example Prompters and terminals\<close>

definition prompter0 :: Prompter where
  "prompter0 = \<lparr>Message = ''Pick'', Choices = [], IgnoreCase = False, Default = [],
     DefaultMenuItem = 0, Regexp = None, NoEcho = False, UseDefault = False, IsMenu = False,
     MenuPrompt = [], reg = None\<rparr>"

definition menu3 :: Prompter where
  "menu3 = prompter0\<lparr>Choices := [''a'', ''b'', ''c''], DefaultMenuItem := 2, IsMenu := True\<rparr>"

definition emptyMenu :: Prompter where
  "emptyMenu = prompter0\<lparr>IsMenu := True\<rparr>"

definition yesNo :: Prompter where
  "yesNo = prompter0\<lparr>Choices := [''y'', ''n''], IgnoreCase := True\<rparr>"

definition terminal :: "string option list \<Rightarrow> world" where
  "terminal lines = \<lparr>GO_PROMPTER_USE_DEFAULT = [], stdin_isatty = True, stdout_isatty = True,
     stdin = lines, reads = 0, stdout = [], stderr = []\<rparr>"

definition patternMenu :: Prompter where
  "patternMenu = menu3\<lparr>Regexp := Some allReg\<rparr>"

definition redirected :: world where
  "redirected = (terminal [Some ''typed''])\<lparr>stdout_isatty := False\<rparr>"

definition patterned :: Prompter where
  "patterned = yesNo\<lparr>Regexp := Some numReg\<rparr>"

definition fussy :: Prompter where
  "fussy = prompter0\<lparr>Choices := ['''', ''a''], Default := ''zzz''\<rparr>"

definition maybe :: Prompter where
  "maybe = yesNo\<lparr>Default := ''maybe'', UseDefault := True\<rparr>"


subsection \<open>Auxiliary notions for the statements\<close>

text \<open>
  \<open>readPath p w\<close>: \<open>Prompt\<close> does not take the early return. \<open>substituted p line\<close>:
  the value \<open>Prompt\<close> validates after reading \<open>line\<close>.
\<close>

definition readPath :: "Prompter \<Rightarrow> world \<Rightarrow> bool" where
  "readPath p w = (\<not> UseDefault p \<and> \<not> skip w)"

definition substituted :: "Prompter \<Rightarrow> string \<Rightarrow> string" where
  "substituted p line =
     (if line = [] then (if IsMenu p then Itoa (DefaultMenuItem p) else Default p) else line)"

section \<open>Properties\<close>

subsection \<open>The pattern matcher\<close>

declare rmatch.simps(8) [simp del] rmatch.simps(10) [simp del] formatBits.simps [simp del]

lemmas rmatch_Concat = rmatch.simps(8)

lemma search_iff:
  "search r s \<longleftrightarrow> (\<exists>pre m post. s = pre @ m @ post \<and> rmatch r pre m post)"
proof
  assume "search r s"
  then obtain i j where ij: "i \<le> length s" "i \<le> j" "j \<le> length s"
    and m: "rmatch r (take i s) (take (j - i) (drop i s)) (drop j s)"
    by (auto simp: search_def)
  have "s = take i s @ take (j - i) (drop i s) @ drop j s"
    using ij by (metis add_diff_inverse_nat append_take_drop_id drop_drop less_le_not_le add.commute)
  with m show "\<exists>pre m post. s = pre @ m @ post \<and> rmatch r pre m post" by blast
next
  assume "\<exists>pre m post. s = pre @ m @ post \<and> rmatch r pre m post"
  then obtain pre m post where s: "s = pre @ m @ post" and m: "rmatch r pre m post" by blast
  show "search r s"
    unfolding search_def
    apply (rule bexI [where x = "length pre"])
     apply (rule bexI [where x = "length pre + length m"])
    using s m by auto
qed

lemma rmatch_Star_Nil: "rmatch (Star r) pre [] post"
  by (subst rmatch.simps) simp

lemma allReg_MatchString: "MatchString allReg s"
proof -
  have "s = [] @ [] @ s \<and> rmatch (Star AnyCharNotNL) [] [] s"
    by (simp add: rmatch_Star_Nil)
  then have "search (Star AnyCharNotNL) s"
    unfolding search_iff by blast
  then show ?thesis by (simp add: allReg_def MustCompile_def)
qed

lemma take_single: "take k m = [d] \<Longrightarrow> m = d # drop k m"
  by (metis append_take_drop_id append_Cons append_Nil)

lemma rmatch_Concat_CharRange:
  "rmatch (Concat (CharRange lo hi) r) pre m post \<longleftrightarrow>
     (\<exists>d m'. m = d # m' \<and> inRange lo hi d \<and> rmatch r (pre @ [d]) m' post)"
proof
  assume "rmatch (Concat (CharRange lo hi) r) pre m post"
  then obtain k where k: "rmatch (CharRange lo hi) pre (take k m) (drop k m @ post)"
    "rmatch r (pre @ take k m) (drop k m) post" by (auto simp: rmatch_Concat)
  from k(1) obtain d where d: "take k m = [d]" "inRange lo hi d"
    by (auto split: list.splits)
  with k(2) take_single [OF d(1)] show "\<exists>d m'. m = d # m' \<and> inRange lo hi d \<and> rmatch r (pre @ [d]) m' post"
    by auto
next
  assume "\<exists>d m'. m = d # m' \<and> inRange lo hi d \<and> rmatch r (pre @ [d]) m' post"
  then obtain d m' where "m = d # m'" "inRange lo hi d" "rmatch r (pre @ [d]) m' post" by blast
  then show "rmatch (Concat (CharRange lo hi) r) pre m post"
    by (auto simp: rmatch_Concat intro!: bexI [where x = 1])
qed

lemma rmatch_Concat_Lit:
  "rmatch (Concat (Lit c) r) pre m post \<longleftrightarrow> (\<exists>m'. m = c # m' \<and> rmatch r (pre @ [c]) m' post)"
proof
  assume "rmatch (Concat (Lit c) r) pre m post"
  then obtain k where k: "take k m = [c]" "rmatch r (pre @ take k m) (drop k m) post" by (auto simp: rmatch_Concat)
  with take_single [OF k(1)] show "\<exists>m'. m = c # m' \<and> rmatch r (pre @ [c]) m' post"
    by auto
next
  assume "\<exists>m'. m = c # m' \<and> rmatch r (pre @ [c]) m' post"
  then show "rmatch (Concat (Lit c) r) pre m post"
    by (auto simp: rmatch_Concat intro!: bexI [where x = 1])
qed

lemma rmatch_Concat_FoldLit:
  "rmatch (Concat (FoldLit c) r) pre m post \<longleftrightarrow>
     (\<exists>d m'. m = d # m' \<and> foldEq c d \<and> rmatch r (pre @ [d]) m' post)"
proof
  assume "rmatch (Concat (FoldLit c) r) pre m post"
  then obtain k where k: "rmatch (FoldLit c) pre (take k m) (drop k m @ post)"
    "rmatch r (pre @ take k m) (drop k m) post" by (auto simp: rmatch_Concat)
  from k(1) obtain d where d: "take k m = [d]" "foldEq c d"
    by (auto split: list.splits)
  with k(2) take_single [OF d(1)] show "\<exists>d m'. m = d # m' \<and> foldEq c d \<and> rmatch r (pre @ [d]) m' post"
    by auto
next
  assume "\<exists>d m'. m = d # m' \<and> foldEq c d \<and> rmatch r (pre @ [d]) m' post"
  then obtain d m' where "m = d # m'" "foldEq c d" "rmatch r (pre @ [d]) m' post" by blast
  then show "rmatch (Concat (FoldLit c) r) pre m post"
    by (auto simp: rmatch_Concat intro!: bexI [where x = 1])
qed

lemma rmatch_literal:
  "rmatch (literal ic v) pre m post \<longleftrightarrow> (if ic then list_all2 foldEq v m else m = v)"
proof (induction v arbitrary: pre m)
  case Nil
  then show ?case by auto
next
  case (Cons c v)
  show ?case
  proof (cases ic)
    case True
    then show ?thesis
      using Cons.IH by (auto simp: rmatch_Concat_FoldLit list_all2_Cons1)
  next
    case False
    then show ?thesis
      using Cons.IH by (auto simp: rmatch_Concat_Lit)
  qed
qed

lemma rmatch_alternation:
  "rs \<noteq> [] \<Longrightarrow> rmatch (alternation rs) pre m post \<longleftrightarrow> (\<exists>r\<in>set rs. rmatch r pre m post)"
  by (induction rs rule: alternation.induct) auto

lemma rmatch_Concat_BeginText:
  "rmatch (Concat BeginText r) pre m post \<longleftrightarrow> pre = [] \<and> rmatch r [] m post"
  by (auto simp: rmatch_Concat intro!: bexI [where x = 0])

lemma rmatch_Concat_EndText:
  "rmatch (Concat r EndText) pre m post \<longleftrightarrow> post = [] \<and> rmatch r pre m []"
proof
  assume "rmatch (Concat r EndText) pre m post"
  then obtain j where j: "j \<le> length m" "rmatch r pre (take j m) (drop j m @ post)"
    "drop j m = []" "post = []" by (auto simp: rmatch_Concat)
  then have "take j m = m" by simp
  with j show "post = [] \<and> rmatch r pre m []" by simp
next
  assume "post = [] \<and> rmatch r pre m []"
  then show "rmatch (Concat r EndText) pre m post"
    by (auto simp: rmatch_Concat intro!: bexI [where x = "length m"])
qed

lemma search_anchored:
  "search (Concat BeginText (Concat r EndText)) s \<longleftrightarrow> rmatch r [] s []"
  unfolding search_iff rmatch_Concat_BeginText rmatch_Concat_EndText
  by auto

lemma inRange_digit: "inRange CHR ''0'' CHR ''9'' c = isDigit c"
  by (simp add: inRange_def isDigit_def)

lemma rmatch_CharRange:
  "rmatch (CharRange lo hi) pre m post \<longleftrightarrow> (\<exists>d. m = [d] \<and> inRange lo hi d)"
  by (auto split: list.splits)

lemma numReg_iff:
  "MatchString numReg s \<longleftrightarrow>
     (\<exists>c\<in>set s. inRange CHR ''1'' CHR ''9'' c)
     \<or> (\<exists>i. Suc i < length s \<and> isDigit (s ! i) \<and> isDigit (s ! Suc i))"
  (is "?L \<longleftrightarrow> ?A \<or> ?B")
proof
  assume ?L
  then obtain pre m post where s: "s = pre @ m @ post"
    and m: "rmatch (Concat (CharRange CHR ''0'' CHR ''9'')
                (Concat (CharRange CHR ''0'' CHR ''9'') (Star (CharRange CHR ''0'' CHR ''9'')))) pre m post
            \<or> rmatch (CharRange CHR ''1'' CHR ''9'') pre m post"
    by (auto simp add: numReg_def MustCompile_def search_iff)
  from m show "?A \<or> ?B"
  proof
    assume "rmatch (Concat (CharRange CHR ''0'' CHR ''9'')
                (Concat (CharRange CHR ''0'' CHR ''9'') (Star (CharRange CHR ''0'' CHR ''9'')))) pre m post"
    then obtain d1 d2 m' where "m = d1 # d2 # m'" "isDigit d1" "isDigit d2"
      unfolding rmatch_Concat_CharRange inRange_digit by blast
    with s have "Suc (length pre) < length s" "s ! length pre = d1" "s ! Suc (length pre) = d2"
      by (auto simp: nth_append)
    with \<open>isDigit d1\<close> \<open>isDigit d2\<close> show ?thesis by blast
  next
    assume "rmatch (CharRange CHR ''1'' CHR ''9'') pre m post"
    then obtain d where "m = [d]" "inRange CHR ''1'' CHR ''9'' d"
      unfolding rmatch_CharRange by blast
    with s show ?thesis by auto
  qed
next
  assume "?A \<or> ?B"
  then have "\<exists>pre m post. s = pre @ m @ post \<and>
     (rmatch (Concat (CharRange CHR ''0'' CHR ''9'')
                (Concat (CharRange CHR ''0'' CHR ''9'') (Star (CharRange CHR ''0'' CHR ''9'')))) pre m post
            \<or> rmatch (CharRange CHR ''1'' CHR ''9'') pre m post)"
  proof
    assume ?A
    then obtain c where "c \<in> set s" "inRange CHR ''1'' CHR ''9'' c" by blast
    then obtain pre post where "s = pre @ [c] @ post"
      by (metis split_list append_Cons append_Nil)
    with \<open>inRange CHR ''1'' CHR ''9'' c\<close> show ?thesis
      unfolding rmatch_CharRange by blast
  next
    assume ?B
    then obtain i where i: "Suc i < length s" "isDigit (s ! i)" "isDigit (s ! Suc i)" by blast
    then have "s = take i s @ [s ! i, s ! Suc i] @ drop (Suc (Suc i)) s"
      by (metis Cons_nth_drop_Suc Suc_lessD append_Cons append_Nil append_take_drop_id)
    moreover have "rmatch (Concat (CharRange CHR ''0'' CHR ''9'')
                (Concat (CharRange CHR ''0'' CHR ''9'') (Star (CharRange CHR ''0'' CHR ''9''))))
                   (take i s) [s ! i, s ! Suc i] (drop (Suc (Suc i)) s)"
      unfolding rmatch_Concat_CharRange inRange_digit using i by (simp add: rmatch_Star_Nil)
    ultimately show ?thesis by blast
  qed
  then show ?L
    by (auto simp add: numReg_def MustCompile_def search_iff)
qed

subsection \<open>regexp and inputIsValid\<close>

lemma regexp_explicit: "Regexp p = Some r \<Longrightarrow> regexp p = (r, p)"
  by (simp add: regexp_def)

lemma regexp_fresh_eq:
  "regCoherent p \<Longrightarrow> Regexp p = None \<Longrightarrow> fst (regexp p) = fst (regexp (p\<lparr>reg := None\<rparr>))"
  by (cases "reg p") (simp_all add: regCoherent_def regexp_def)

lemma regexp_allReg:
  "Regexp p = None \<Longrightarrow> Choices p = [] \<Longrightarrow> regCoherent p \<Longrightarrow> fst (regexp p) = allReg"
  by (simp add: regexp_fresh_eq) (simp add: regexp_def)

lemma regexp_numReg:
  "Regexp p = None \<Longrightarrow> Choices p \<noteq> [] \<Longrightarrow> IsMenu p \<Longrightarrow> regCoherent p \<Longrightarrow> fst (regexp p) = numReg"
  by (simp add: regexp_fresh_eq) (simp add: regexp_def)

lemma regexp_choices:
  "Regexp p = None \<Longrightarrow> Choices p \<noteq> [] \<Longrightarrow> \<not> IsMenu p \<Longrightarrow> regCoherent p \<Longrightarrow>
     MatchString (fst (regexp p)) s
       = (\<exists>c\<in>set (Choices p). if IgnoreCase p then list_all2 foldEq c s else s = c)"
  by (simp add: regexp_fresh_eq)
     (auto simp add: regexp_def Let_def MustCompile_def search_anchored rmatch_alternation rmatch_literal)

lemma regexp_snd: "\<exists>r. snd (regexp p) = p\<lparr>reg := r\<rparr>"
proof (cases "Regexp p")
  case None
  show ?thesis
  proof (cases "reg p")
    case None
    with \<open>Regexp p = None\<close> show ?thesis
      by (auto simp: regexp_def Let_def)
  next
    case (Some r)
    with \<open>Regexp p = None\<close> have "snd (regexp p) = p\<lparr>reg := reg p\<rparr>"
      by (simp add: regexp_def)
    then show ?thesis by blast
  qed
next
  case (Some r)
  then have "snd (regexp p) = p\<lparr>reg := reg p\<rparr>"
    by (simp add: regexp_def)
  then show ?thesis by blast
qed

lemma regexp_coherent: "regCoherent p \<Longrightarrow> regCoherent (snd (regexp p))"
  by (cases "Regexp p"; cases "reg p")
     (simp_all add: regCoherent_def regexp_def Let_def)

lemma regexp_again:
  "regCoherent p \<Longrightarrow> fst (regexp (snd (regexp p))) = fst (regexp p)"
  by (cases "Regexp p"; cases "reg p")
     (simp_all add: regCoherent_def regexp_def Let_def)

lemma inputIsValid_fst:
  "fst (inputIsValid p input) =
     (MatchString (fst (regexp p)) input \<and>
      (IsMenu p \<longrightarrow> (\<exists>it. Atoi input = Some it \<and> it \<le> int (length (Choices p)) + 1)))"
proof -
  obtain r where r: "snd (regexp p) = p\<lparr>reg := r\<rparr>" using regexp_snd by blast
  show ?thesis
    using r by (cases "regexp p") (auto simp: inputIsValid_def Let_def split: option.splits)
qed

lemma inputIsValid_snd: "snd (inputIsValid p input) = snd (regexp p)"
  by (cases "regexp p") (auto simp: inputIsValid_def Let_def split: option.splits)

lemma inputIsValid_again:
  "regCoherent p \<Longrightarrow> fst (inputIsValid (snd (inputIsValid p s)) t) = fst (inputIsValid p t)"
proof -
  assume c: "regCoherent p"
  obtain r where r: "snd (regexp p) = p\<lparr>reg := r\<rparr>" using regexp_snd by blast
  have "fst (regexp (snd (regexp p))) = fst (regexp p)" using c by (rule regexp_again)
  then show ?thesis
    unfolding inputIsValid_fst inputIsValid_snd using r by simp
qed

subsection \<open>Prompt\<close>

lemma skip_Print [simp]: "skip (Print s w) = skip w"
  by (simp add: skip_def Print_def)

lemma readLine_reads: "reads (snd (readLine w)) = Suc (reads w)"
  by (simp add: readLine_def split: list.splits)

lemma readLine_skip: "skip (snd (readLine w)) = skip w"
  by (simp add: readLine_def skip_def split: list.splits)

lemma readInput_reads: "reads (snd (readInput p w)) = Suc (reads w)"
  using readLine_reads [of w]
  by (cases "readLine w") (simp add: readInput_def Print_def)

lemma readInput_skip: "skip (snd (readInput p w)) = skip w"
  using readLine_skip [of w]
  by (cases "readLine w") (simp add: readInput_def)

lemma retry_reads: "reads (retry p w) = reads w"
  by (simp add: retry_def Println_def print_stderr_def Let_def)

lemma retry_skip: "skip (retry p w) = skip w"
  by (simp add: retry_def Println_def print_stderr_def Let_def skip_def)

lemma Print_reads: "reads (Print s w) = reads w"
  by (simp add: Print_def)

lemma Prompt_auto:
  "UseDefault p \<or> skip w \<Longrightarrow> Prompt p w = Some (Default p, p, Print (msg p) w)"
  by (subst Prompt.simps) (simp add: Let_def)

lemma Prompt_read:
  assumes "\<not> UseDefault p" "\<not> skip w" "readInput p (Print (msg p) w) = (line, w2)"
  shows "Prompt p w =
     (if fst (inputIsValid p (substituted p line))
      then Some (substituted p line, snd (inputIsValid p (substituted p line)), w2)
      else Prompt (snd (inputIsValid p (substituted p line)))
             (retry (snd (inputIsValid p (substituted p line))) w2))"
  using assms
  by (subst Prompt.simps)
     (cases "inputIsValid p (substituted p line)", simp add: Let_def substituted_def)

lemma inputIsValid_config:
  "UseDefault (snd (inputIsValid p s)) = UseDefault p"
  "\<exists>r. snd (inputIsValid p s) = p\<lparr>reg := r\<rparr>"
  "regCoherent p \<Longrightarrow> regCoherent (snd (inputIsValid p s))"
proof -
  obtain r where r: "snd (regexp p) = p\<lparr>reg := r\<rparr>" using regexp_snd by blast
  then show "UseDefault (snd (inputIsValid p s)) = UseDefault p"
    by (simp add: inputIsValid_snd)
  from r show "\<exists>r. snd (inputIsValid p s) = p\<lparr>reg := r\<rparr>"
    unfolding inputIsValid_snd by blast
  show "regCoherent p \<Longrightarrow> regCoherent (snd (inputIsValid p s))"
    by (simp add: inputIsValid_snd regexp_coherent)
qed

lemma Prompt_Prompter:
  assumes "Prompt p w = Some y"
  shows "(\<exists>r. fst (snd y) = p\<lparr>reg := r\<rparr>) \<and> (regCoherent p \<longrightarrow> regCoherent (fst (snd y)))"
  using assms
proof (induction p w y rule: Prompt.raw_induct [rotated, consumes 1, case_names step])
  case (step Prompt' p w y)
  show ?case
  proof (cases "UseDefault p \<or> skip w")
    case True
    with step.hyps have "y = (Default p, p, Print (msg p) w)"
      by (auto simp: Let_def)
    moreover have "p = p\<lparr>reg := reg p\<rparr>" by simp
    ultimately show ?thesis by (metis fst_conv snd_conv)
  next
    case False
    obtain line w2 where rd: "readInput p (Print (msg p) w) = (line, w2)"
      by (cases "readInput p (Print (msg p) w)")
    define input where "input = substituted p line"
    define p' where "p' = snd (inputIsValid p input)"
    obtain r where r: "p' = p\<lparr>reg := r\<rparr>"
      using inputIsValid_config(2) [of p input] by (auto simp: p'_def)
    have coh: "regCoherent p \<longrightarrow> regCoherent p'"
      using inputIsValid_config(3) [of p input] by (simp add: p'_def)
    have body: "(if fst (inputIsValid p input) then Some (input, p', w2)
                 else Prompt' p' (retry p' w2)) = Some y"
      using step.hyps False rd
      by (cases "inputIsValid p input")
         (auto simp add: Let_def input_def p'_def substituted_def split: if_splits)
    show ?thesis
    proof (cases "fst (inputIsValid p input)")
      case True
      with body have "y = (input, p', w2)" by simp
      with r coh show ?thesis by auto
    next
      case False
      with body have call: "Prompt' p' (retry p' w2) = Some y" by simp
      from step.IH [OF call] obtain r' where "fst (snd y) = p'\<lparr>reg := r'\<rparr>"
        and c: "regCoherent p' \<longrightarrow> regCoherent (fst (snd y))" by blast
      with r have "fst (snd y) = p\<lparr>reg := r'\<rparr>" by simp
      with coh c show ?thesis by blast
    qed
  qed
qed

lemma Prompt_result:
  assumes "Prompt p w = Some y"
  shows "(\<not> readPath p w \<longrightarrow> reads (snd (snd y)) = reads w)
       \<and> (readPath p w \<longrightarrow> reads w < reads (snd (snd y))
            \<and> (regCoherent p \<longrightarrow> fst (inputIsValid p (fst y))))"
  using assms
proof (induction p w y rule: Prompt.raw_induct [rotated, consumes 1, case_names step])
  case (step Prompt' p w y)
  show ?case
  proof (cases "UseDefault p \<or> skip w")
    case True
    with step.hyps have "y = (Default p, p, Print (msg p) w)"
      by (auto simp: Let_def)
    with True show ?thesis
      by (auto simp: readPath_def Print_reads)
  next
    case False
    then have rp: "readPath p w" by (simp add: readPath_def)
    obtain line w2 where rd: "readInput p (Print (msg p) w) = (line, w2)"
      by (cases "readInput p (Print (msg p) w)")
    define input where "input = substituted p line"
    define p' where "p' = snd (inputIsValid p input)"
    have w2: "reads w2 = Suc (reads w)" "skip w2 = skip w"
      using readInput_reads [of p "Print (msg p) w"] readInput_skip [of p "Print (msg p) w"] rd
      by (simp_all add: Print_reads)
    have body: "(if fst (inputIsValid p input) then Some (input, p', w2)
                 else Prompt' p' (retry p' w2)) = Some y"
      using step.hyps False rd
      by (cases "inputIsValid p input")
         (auto simp add: Let_def input_def p'_def substituted_def split: if_splits)
    show ?thesis
    proof (cases "fst (inputIsValid p input)")
      case True
      with body have "y = (input, p', w2)" by simp
      with True w2 rp show ?thesis by simp
    next
      case invalid: False
      with body have call: "Prompt' p' (retry p' w2) = Some y" by simp
      have rp': "readPath p' (retry p' w2)"
        using rp w2 inputIsValid_config(1) [of p input]
        by (simp add: readPath_def p'_def retry_skip)
      from step.IH [OF call] rp'
      have ih: "reads (retry p' w2) < reads (snd (snd y))"
        "regCoherent p' \<longrightarrow> fst (inputIsValid p' (fst y))" by simp_all
      have "regCoherent p \<longrightarrow> fst (inputIsValid p (fst y))"
        using ih(2) inputIsValid_config(3) [of p input] inputIsValid_again [of p input "fst y"]
        by (simp add: p'_def)
      with ih(1) w2 rp show ?thesis
        by (simp add: retry_reads)
    qed
  qed
qed

subsection \<open>Atoi and Itoa\<close>

lemma digitChar_of_char: "isDigit c \<Longrightarrow> digitChar ((of_char c :: int) - 48) = c"
  by (simp add: digitChar_def)

lemma isDigit_value: "isDigit c \<Longrightarrow> 0 \<le> (of_char c :: int) - 48 \<and> (of_char c :: int) - 48 \<le> 9"
  by (simp add: isDigit_def) 

lemma isDigit_zero: "isDigit c \<Longrightarrow> c \<noteq> CHR ''0'' \<Longrightarrow> 1 \<le> (of_char c :: int) - 48"
proof -
  assume d: "isDigit c" and n: "c \<noteq> CHR ''0''"
  have "(of_char c = (of_char CHR ''0'' :: int)) = (c = CHR ''0'')"
    by (rule of_char_eq_iff)
  with n have "(of_char c :: int) \<noteq> 48" by simp
  with d show ?thesis by (simp add: isDigit_def)
qed

lemma parseDigits_append:
  "parseDigits (xs @ [c]) a =
     (case parseDigits xs a of
        None \<Rightarrow> None
      | Some v \<Rightarrow> if isDigit c then Some (v * 10 + ((of_char c :: int) - 48)) else None)"
  by (induction xs arbitrary: a) auto

lemma parseDigits_mono: "parseDigits s a = Some v \<Longrightarrow> 0 \<le> a \<Longrightarrow> a \<le> v"
proof (induction s arbitrary: a)
  case Nil
  then show ?case by simp
next
  case (Cons c s)
  from Cons.prems have d: "isDigit c" and r: "parseDigits s (a * 10 + ((of_char c :: int) - 48)) = Some v"
    by (auto split: if_splits)
  have "0 \<le> a * 10 + ((of_char c :: int) - 48)" "a \<le> a * 10 + ((of_char c :: int) - 48)"
    using isDigit_value [OF d] Cons.prems(2) by auto
  with Cons.IH [OF r] show ?case by linarith
qed

lemma parseDigits_positive:
  assumes "parseDigits s 0 = Some v" "s \<noteq> []" "hd s \<noteq> CHR ''0''"
  shows "1 \<le> v"
proof -
  obtain c cs where s: "s = c # cs" using assms(2) by (cases s) auto
  with assms have d: "isDigit c" "c \<noteq> CHR ''0''" and r: "parseDigits cs ((of_char c :: int) - 48) = Some v"
    by (auto split: if_splits)
  have "1 \<le> (of_char c :: int) - 48" using d by (rule isDigit_zero)
  with parseDigits_mono [OF r] show ?thesis by linarith
qed

lemma formatBits_parseDigits:
  "parseDigits s 0 = Some v \<Longrightarrow> s \<noteq> [] \<Longrightarrow> hd s \<noteq> CHR ''0'' \<Longrightarrow> formatBits v = s"
proof (induction s arbitrary: v rule: rev_induct)
  case Nil
  then show ?case by simp
next
  case (snoc c t)
  from snoc.prems(1) obtain u where u: "parseDigits t 0 = Some u" and d: "isDigit c"
    and v: "v = u * 10 + ((of_char c :: int) - 48)"
    by (auto simp: parseDigits_append split: option.splits if_splits)
  show ?case
  proof (cases "t = []")
    case True
    with u have "u = 0" by simp
    with v isDigit_value [OF d] have "v < 10" by simp
    with v \<open>u = 0\<close> True d show ?thesis
      by (subst formatBits.simps) (simp add: digitChar_of_char)
  next
    case False
    with snoc.prems have h: "hd t \<noteq> CHR ''0''" by (cases t) auto
    from parseDigits_positive [OF u False h] have "1 \<le> u" .
    with v isDigit_value [OF d] have "\<not> v < 10" "v div 10 = u" "v mod 10 = (of_char c :: int) - 48"
      by auto
    with snoc.IH [OF u False h] d show ?thesis
      by (subst formatBits.simps) (simp add: digitChar_of_char)
  qed
qed

lemma Atoi_digits:
  assumes "\<forall>c\<in>set s. isDigit c" "Atoi s = Some n"
  shows "parseDigits s 0 = Some n \<and> 0 \<le> n"
proof -
  from assms(2) obtain c cs where s: "s = c # cs" by (cases s) (auto simp: Atoi_def)
  with assms(1) have "isDigit c" by simp
  then have "c \<noteq> CHR ''-''" "c \<noteq> CHR ''+''" by (auto simp: isDigit_def)
  with assms(2) s have "parseDigits s 0 = Some n"
    by (auto simp: Atoi_def Let_def split: option.splits if_splits)
  with parseDigits_mono [of s 0 n] show ?thesis by simp
qed

lemma Itoa_Atoi:
  assumes "\<forall>c\<in>set s. isDigit c" "hd s \<noteq> CHR ''0''" "Atoi s = Some n"
  shows "Itoa n = s \<and> 1 \<le> n"
proof -
  from assms(3) have ne: "s \<noteq> []" by (auto simp: Atoi_def)
  from Atoi_digits [OF assms(1,3)] have p: "parseDigits s 0 = Some n" "0 \<le> n" by simp_all
  from formatBits_parseDigits [OF p(1) ne assms(2)] parseDigits_positive [OF p(1) ne assms(2)] p(2)
  show ?thesis by (simp add: Itoa_def)
qed

lemma numReg_zero: "\<not> MatchString numReg ''0''"
  by (simp add: numReg_iff inRange_def)

subsection \<open>Evaluations at the example Prompters\<close>

lemma Atoi_0: "Atoi ''0'' = Some 0"
  by (simp add: Atoi_def isDigit_def)

lemma Atoi_4: "Atoi ''4'' = Some 4"
  by (simp add: Atoi_def isDigit_def)



lemma emptyMenu_config:
  "IsMenu emptyMenu" "Regexp emptyMenu = None" "Choices emptyMenu = []" "regCoherent emptyMenu"
  "\<not> UseDefault emptyMenu" "DefaultMenuItem emptyMenu = 0" "\<not> NoEcho emptyMenu"
  by (simp_all add: emptyMenu_def prompter0_def regCoherent_def)

lemma emptyMenu_valid_0: "fst (inputIsValid emptyMenu ''0'')"
  by (simp add: inputIsValid_fst regexp_allReg emptyMenu_config allReg_MatchString Atoi_0)

lemma menu3_config:
  "IsMenu menu3" "Regexp menu3 = None" "Choices menu3 = [''a'', ''b'', ''c'']" "regCoherent menu3"
  "\<not> UseDefault menu3" "DefaultMenuItem menu3 = 2" "\<not> NoEcho menu3"
  by (simp_all add: menu3_def prompter0_def regCoherent_def)

lemma skip_iff:
  "skip w \<longleftrightarrow> GO_PROMPTER_USE_DEFAULT w \<noteq> [] \<or> \<not> stdin_isatty w \<or> \<not> stdout_isatty w"
  by (simp add: skip_def)

lemma Print_stdin: "stdin (Print s w) = stdin w"
  by (simp add: Print_def)

lemma redirected_config:
  "GO_PROMPTER_USE_DEFAULT redirected = []" "stdin_isatty redirected" "\<not> stdout_isatty redirected"
  "skip redirected"
  by (simp_all add: redirected_def terminal_def skip_def)

lemma prompter0_config:
  "\<not> IsMenu prompter0" "Regexp prompter0 = None" "Choices prompter0 = []" "regCoherent prompter0"
  "\<not> UseDefault prompter0" "Default prompter0 = []" "\<not> NoEcho prompter0"
  by (simp_all add: prompter0_def regCoherent_def)

lemma terminal_config:
  "\<not> skip (terminal ls)" "stdin (terminal ls) = ls" "reads (terminal ls) = 0"
  by (simp_all add: terminal_def skip_def)

lemma readInput_echo:
  "\<not> NoEcho p \<Longrightarrow> stdin w = Some t # rest \<Longrightarrow>
     readInput p w = (TrimRight t [carriage_return, newline], w\<lparr>stdin := rest, reads := Suc (reads w)\<rparr>)"
  by (simp add: readInput_def readLine_def)

lemma readInput_eof:
  "\<not> NoEcho p \<Longrightarrow> stdin w = [] \<Longrightarrow> readInput p w = ([], w\<lparr>reads := Suc (reads w)\<rparr>)"
  by (simp add: readInput_def readLine_def)

lemma menu3_valid_2: "fst (inputIsValid menu3 ''2'')"
  by (simp add: inputIsValid_fst regexp_numReg menu3_config numReg_iff inRange_def Atoi_def isDigit_def)

text \<open>
  In a menu with choices the numeric rule is searched for anywhere in the input, so a
  signed or zero-padded number passes validation as well.
\<close>

lemma menu3_accepts_signed:
  "fst (inputIsValid menu3 ''-1'') \<and> fst (inputIsValid menu3 ''+3'') \<and> fst (inputIsValid menu3 ''00'')"
  by (simp add: inputIsValid_fst regexp_numReg menu3_config numReg_iff inRange_def Atoi_def isDigit_def)

lemma patternMenu_config:
  "IsMenu patternMenu" "Regexp patternMenu = Some allReg" "Choices patternMenu = [''a'', ''b'', ''c'']"
  by (simp_all add: patternMenu_def menu3_def prompter0_def)

lemma inputIsValid_explicit:
  "Regexp p = Some r \<Longrightarrow>
     fst (inputIsValid p input) =
       (MatchString r input \<and>
        (IsMenu p \<longrightarrow> (\<exists>it. Atoi input = Some it \<and> it \<le> int (length (Choices p)) + 1)))"
  by (simp add: inputIsValid_fst regexp_explicit)

lemma yesNo_config:
  "\<not> IsMenu yesNo" "Regexp yesNo = None" "Choices yesNo = [''y'', ''n'']" "regCoherent yesNo"
  "\<not> UseDefault yesNo" "IgnoreCase yesNo" "\<not> NoEcho yesNo" "Default yesNo = []"
  by (simp_all add: yesNo_def prompter0_def regCoherent_def)


lemma fussy_config:
  "\<not> IsMenu fussy" "Regexp fussy = None" "Choices fussy = ['''', ''a'']" "regCoherent fussy"
  "\<not> UseDefault fussy" "\<not> IgnoreCase fussy" "\<not> NoEcho fussy" "Default fussy = ''zzz''"
  by (simp_all add: fussy_def prompter0_def regCoherent_def)

lemma fussy_valid:
  "fst (inputIsValid fussy [])" "\<not> fst (inputIsValid fussy ''zzz'')"
  by (simp_all add: inputIsValid_fst regexp_choices fussy_config)

lemma Atoi_abc: "Atoi ''abc'' = None"
  by (simp add: Atoi_def isDigit_def)

lemma emptyMenu_invalid_abc: "\<not> fst (inputIsValid emptyMenu ''abc'')"
  by (simp add: inputIsValid_fst emptyMenu_config Atoi_abc)

lemma emptyMenu_next:
  "IsMenu (snd (inputIsValid emptyMenu s))" "\<not> UseDefault (snd (inputIsValid emptyMenu s))"
  "\<not> NoEcho (snd (inputIsValid emptyMenu s))" "DefaultMenuItem (snd (inputIsValid emptyMenu s)) = 0"
  "regCoherent (snd (inputIsValid emptyMenu s))"
  "fst (inputIsValid (snd (inputIsValid emptyMenu s)) t) = fst (inputIsValid emptyMenu t)"
proof -
  obtain r where r: "snd (inputIsValid emptyMenu s) = emptyMenu\<lparr>reg := r\<rparr>"
    using inputIsValid_config(2) by blast
  then show "IsMenu (snd (inputIsValid emptyMenu s))" "\<not> UseDefault (snd (inputIsValid emptyMenu s))"
    "\<not> NoEcho (snd (inputIsValid emptyMenu s))" "DefaultMenuItem (snd (inputIsValid emptyMenu s)) = 0"
    by (simp_all add: emptyMenu_config)
  show "regCoherent (snd (inputIsValid emptyMenu s))"
    by (simp add: inputIsValid_config(3) emptyMenu_config)
  show "fst (inputIsValid (snd (inputIsValid emptyMenu s)) t) = fst (inputIsValid emptyMenu t)"
    by (simp add: inputIsValid_again emptyMenu_config)
qed

lemma Itoa_0: "Itoa 0 = ''0''"
  by (simp add: Itoa_def formatBits.simps digitChar_def char_of_def)

lemma skip_consumed: "skip (w\<lparr>stdin := ls, reads := n\<rparr>) = skip w"
  by (simp add: skip_def)

lemma retry_stdin: "stdin (retry p w) = stdin w"
  by (simp add: retry_def Println_def print_stderr_def Let_def)


section \<open>The claims\<close>

subsection \<open>C1: validation in menu mode\<close>




subsection \<open>C2: the early return\<close>

text \<open>
  C2 as stated: \<open>Prompt\<close> returns \<open>Default\<close> without reading exactly when
  \<open>UseDefault\<close> is set, or the environment variable is non-empty, or neither standard
  input nor standard output is a terminal. With standard input a terminal and standard
  output redirected none of the three holds, and \<open>Prompt\<close> still returns \<open>Default\<close>
  without a read.
\<close>

theorem redirected_output_auto_accepts:
  "\<not> (UseDefault prompter0 \<or> GO_PROMPTER_USE_DEFAULT redirected \<noteq> []
        \<or> (\<not> stdin_isatty redirected \<and> \<not> stdout_isatty redirected))
   \<and> Prompt prompter0 redirected
       = Some (Default prompter0, prompter0, Print (msg prompter0) redirected)
   \<and> reads (Print (msg prompter0) redirected) = reads redirected
   \<and> stdin (Print (msg prompter0) redirected) = stdin redirected"
  using Prompt_auto [of prompter0 redirected]
  by (simp add: redirected_config prompter0_config Print_reads Print_stdin)

text \<open>
  C2, amended: \<open>Prompt\<close> returns without having read exactly when \<open>UseDefault\<close> is
  set, or the environment variable is non-empty, or standard input is not a terminal, or
  standard output is not a terminal; it then returns \<open>Default\<close>, the Prompter unchanged,
  and has only printed the message. In particular this is so, for every Prompter,
  whenever the environment variable is non-empty.
\<close>

theorem Prompt_auto_accept:
  "((UseDefault p \<or> GO_PROMPTER_USE_DEFAULT w \<noteq> [] \<or> \<not> stdin_isatty w \<or> \<not> stdout_isatty w)
      \<longleftrightarrow> (\<exists>y. Prompt p w = Some y \<and> reads (snd (snd y)) = reads w))
   \<and> (UseDefault p \<or> GO_PROMPTER_USE_DEFAULT w \<noteq> [] \<or> \<not> stdin_isatty w \<or> \<not> stdout_isatty w
      \<longrightarrow> Prompt p w = Some (Default p, p, Print (msg p) w)
          \<and> reads (Print (msg p) w) = reads w \<and> stdin (Print (msg p) w) = stdin w)
   \<and> (GO_PROMPTER_USE_DEFAULT w \<noteq> []
      \<longrightarrow> Prompt p w = Some (Default p, p, Print (msg p) w)
          \<and> reads (Print (msg p) w) = reads w \<and> stdin (Print (msg p) w) = stdin w)"
proof -
  let ?auto = "UseDefault p \<or> GO_PROMPTER_USE_DEFAULT w \<noteq> [] \<or> \<not> stdin_isatty w \<or> \<not> stdout_isatty w"
  have auto_iff: "?auto \<longleftrightarrow> \<not> readPath p w"
    by (auto simp: readPath_def skip_iff)
  have a: "?auto \<longrightarrow> Prompt p w = Some (Default p, p, Print (msg p) w)
          \<and> reads (Print (msg p) w) = reads w \<and> stdin (Print (msg p) w) = stdin w"
    using Prompt_auto [of p w] by (auto simp: skip_iff Print_reads Print_stdin)
  have b: "(\<exists>y. Prompt p w = Some y \<and> reads (snd (snd y)) = reads w) \<longrightarrow> ?auto"
  proof
    assume "\<exists>y. Prompt p w = Some y \<and> reads (snd (snd y)) = reads w"
    then obtain y where y: "Prompt p w = Some y" "reads (snd (snd y)) = reads w" by blast
    from Prompt_result [OF y(1)] y(2) have "\<not> readPath p w" by auto
    with auto_iff show ?auto by blast
  qed
  have c: "?auto \<longrightarrow> (\<exists>y. Prompt p w = Some y \<and> reads (snd (snd y)) = reads w)"
    using a by auto
  from a b c show ?thesis by blast
qed

theorem Prompt_auto_accept_witness:
  "GO_PROMPTER_USE_DEFAULT ((terminal [Some ''n''])\<lparr>GO_PROMPTER_USE_DEFAULT := ''1''\<rparr>) \<noteq> []
   \<and> Prompt yesNo ((terminal [Some ''n''])\<lparr>GO_PROMPTER_USE_DEFAULT := ''1''\<rparr>)
       = Some (Default yesNo, yesNo,
               Print (msg yesNo) ((terminal [Some ''n''])\<lparr>GO_PROMPTER_USE_DEFAULT := ''1''\<rparr>))
   \<and> stdin (Print (msg yesNo) ((terminal [Some ''n''])\<lparr>GO_PROMPTER_USE_DEFAULT := ''1''\<rparr>))
       = [Some ''n'']"
proof -
  let ?w = "(terminal [Some ''n''])\<lparr>GO_PROMPTER_USE_DEFAULT := ''1''\<rparr>"
  have h: "GO_PROMPTER_USE_DEFAULT ?w \<noteq> []" by (simp add: terminal_def)
  have s: "stdin ?w = [Some ''n'']" by (simp add: terminal_def)
  from Prompt_auto_accept [of yesNo ?w] h s show ?thesis by simp
qed

subsection \<open>C3: the answers of a menu\<close>

text \<open>
  C3 as stated: every answer of a menu Prompter that passes validation is the canonical
  decimal representation of an integer from 1 to the accepted bound. A menu without
  choices is validated by the accept-all rule and \<open>Atoi\<close>: the answer \<open>0\<close> passes and
  \<open>Prompt\<close> returns it.
\<close>

theorem emptyMenu_returns_zero:
  "IsMenu emptyMenu
   \<and> fst (inputIsValid emptyMenu ''0'')
   \<and> Prompt emptyMenu (terminal [Some ''0''])
       = Some (''0'', snd (inputIsValid emptyMenu ''0''),
               (Print (msg emptyMenu) (terminal [Some ''0'']))\<lparr>stdin := [], reads := 1\<rparr>)
   \<and> Atoi ''0'' = Some 0"
proof -
  have rd: "readInput emptyMenu (Print (msg emptyMenu) (terminal [Some ''0'']))
      = (''0'', (Print (msg emptyMenu) (terminal [Some ''0'']))\<lparr>stdin := [], reads := 1\<rparr>)"
    by (simp add: readInput_echo [where t = "''0''" and rest = "[]"] emptyMenu_config
          Print_stdin Print_reads terminal_config TrimRight_def carriage_return_def newline_def)
  have "Prompt emptyMenu (terminal [Some ''0''])
       = Some (''0'', snd (inputIsValid emptyMenu ''0''),
               (Print (msg emptyMenu) (terminal [Some ''0'']))\<lparr>stdin := [], reads := 1\<rparr>)"
    using Prompt_read [OF _ _ rd]
    by (simp add: emptyMenu_config terminal_config substituted_def emptyMenu_valid_0)
  then show ?thesis
    by (simp add: emptyMenu_config emptyMenu_valid_0 Atoi_0)
qed

text \<open>
  C3, amended: for a menu Prompter with at least one choice and no explicit pattern
  (and a coherent cache), every answer that passes validation is parsed by \<open>Atoi\<close> to
  an integer that is at most \<open>len(choices) + 1\<close>, and is not the text \<open>0\<close>; when the
  answer consists of ASCII digits only and does not begin with \<open>0\<close>, it is the canonical
  decimal representation of that integer, and the integer is at least 1.
\<close>

theorem menu_answer_index:
  assumes "IsMenu p" "Regexp p = None" "Choices p \<noteq> []" "regCoherent p"
    and "fst (inputIsValid p s)"
  shows "\<exists>n. Atoi s = Some n \<and> n \<le> int (length (Choices p)) + 1 \<and> s \<noteq> ''0''
           \<and> ((\<forall>c\<in>set s. isDigit c) \<and> hd s \<noteq> CHR ''0''
                \<longrightarrow> s = Itoa n \<and> 1 \<le> n)"
proof -
  have "fst (regexp p) = numReg"
    using assms by (simp add: regexp_numReg)
  with assms(1,5) obtain n where n: "MatchString numReg s" "Atoi s = Some n"
    "n \<le> int (length (Choices p)) + 1"
    by (auto simp: inputIsValid_fst)
  from n(1) numReg_zero have "s \<noteq> ''0''" by auto
  moreover have "(\<forall>c\<in>set s. isDigit c) \<and> hd s \<noteq> CHR ''0'' \<longrightarrow> s = Itoa n \<and> 1 \<le> n"
    using Itoa_Atoi [of s n] n(2) by auto
  ultimately show ?thesis using n by blast
qed

theorem menu_answer_index_witness:
  "IsMenu menu3 \<and> Regexp menu3 = None \<and> Choices menu3 \<noteq> [] \<and> regCoherent menu3
   \<and> fst (inputIsValid menu3 ''2'')
   \<and> (\<exists>n. Atoi ''2'' = Some n \<and> n \<le> int (length (Choices menu3)) + 1 \<and> ''2'' \<noteq> ''0''
           \<and> ((\<forall>c\<in>set ''2''. isDigit c) \<and> hd ''2'' \<noteq> CHR ''0''
                \<longrightarrow> ''2'' = Itoa n \<and> 1 \<le> n))"
proof -
  have h: "IsMenu menu3" "Regexp menu3 = None" "Choices menu3 \<noteq> []" "regCoherent menu3"
    by (simp_all add: menu3_config)
  from menu_answer_index [OF h menu3_valid_2] h menu3_valid_2 show ?thesis
    by (intro conjI)
qed

subsection \<open>C4: an explicit pattern has priority\<close>

text \<open>
  C4 as stated: with choices and an explicit pattern, an input is accepted if and only
  if it matches the pattern, and the choices have no effect. In menu mode the check by
  \<open>Atoi\<close> and the bound \<open>len(choices) + 1\<close> follow the pattern: an input that matches
  the pattern is rejected, and the number of choices decides whether \<open>4\<close> is accepted.
\<close>

theorem patternMenu_rejects_match:
  "IsMenu patternMenu \<and> Regexp patternMenu = Some allReg \<and> Choices patternMenu \<noteq> []
   \<and> MatchString allReg ''x'' \<and> \<not> fst (inputIsValid patternMenu ''x'')
   \<and> fst (inputIsValid patternMenu ''4'')
   \<and> \<not> fst (inputIsValid (patternMenu\<lparr>Choices := [''a'']\<rparr>) ''4'')"
proof -
  have "Atoi ''x'' = None" by (simp add: Atoi_def isDigit_def)
  then have x: "\<not> fst (inputIsValid patternMenu ''x'')"
    by (simp add: inputIsValid_explicit [of patternMenu allReg] patternMenu_config)
  have y: "fst (inputIsValid patternMenu ''4'')"
    by (simp add: inputIsValid_explicit [of patternMenu allReg] patternMenu_config
          allReg_MatchString Atoi_4)
  have "Regexp (patternMenu\<lparr>Choices := [''a'']\<rparr>) = Some allReg" "IsMenu (patternMenu\<lparr>Choices := [''a'']\<rparr>)"
    by (simp_all add: patternMenu_config)
  then have z: "\<not> fst (inputIsValid (patternMenu\<lparr>Choices := [''a'']\<rparr>) ''4'')"
    by (simp add: inputIsValid_explicit [of _ allReg] Atoi_4)
  from x y z show ?thesis
    by (simp add: patternMenu_config allReg_MatchString)
qed

text \<open>
  C4, amended: for a Prompter that is not a menu and has an explicit pattern, an input
  is accepted if and only if \<open>MatchString\<close> of the pattern holds for it, and replacing
  the choice list does not change the result; so an input outside the choice list that
  matches the pattern is accepted.
\<close>

theorem pattern_governs:
  assumes "\<not> IsMenu p" "Regexp p = Some r"
  shows "fst (inputIsValid p input) = MatchString r input
       \<and> fst (inputIsValid (p\<lparr>Choices := cs\<rparr>) input) = fst (inputIsValid p input)"
  using assms by (simp add: inputIsValid_explicit [of _ r])

theorem pattern_governs_witness:
  "\<not> IsMenu patterned \<and> Regexp patterned = Some numReg \<and> ''7'' \<notin> set (Choices patterned)
   \<and> MatchString numReg ''7'' \<and> fst (inputIsValid patterned ''7'')"
proof -
  have h: "\<not> IsMenu patterned" "Regexp patterned = Some numReg"
    by (simp_all add: patterned_def yesNo_def prompter0_def)
  have c: "''7'' \<notin> set (Choices patterned)"
    by (simp add: patterned_def yesNo_def prompter0_def)
  have m: "MatchString numReg ''7''" by (simp add: numReg_iff inRange_def)
  from pattern_governs [OF h, of "''7''"] h c m show ?thesis by simp
qed

subsection \<open>C5: a choice list\<close>



subsection \<open>C6: the fallback for an empty line\<close>

text \<open>
  C6: when \<open>Prompt\<close> reads, and the line read is empty, the value validated and
  returned is \<open>Itoa(DefaultMenuItem)\<close> in menu mode and \<open>Default\<close> otherwise: it is
  returned when it is valid, and when it is not, \<open>Prompt\<close> prints the error and prompts
  again, whether or not the empty line itself would have been valid. A line that is not
  empty is validated and returned as it is, never replaced.
\<close>

theorem empty_input_fallback:
  assumes "\<not> UseDefault p" "\<not> skip w" "readInput p (Print (msg p) w) = (line, w2)"
  shows "(line = [] \<and> IsMenu p \<and> fst (inputIsValid p (Itoa (DefaultMenuItem p)))
            \<longrightarrow> Prompt p w = Some (Itoa (DefaultMenuItem p),
                                   snd (inputIsValid p (Itoa (DefaultMenuItem p))), w2))
       \<and> (line = [] \<and> \<not> IsMenu p \<and> fst (inputIsValid p (Default p))
            \<longrightarrow> Prompt p w = Some (Default p, snd (inputIsValid p (Default p)), w2))
       \<and> (line = [] \<and> IsMenu p \<and> \<not> fst (inputIsValid p (Itoa (DefaultMenuItem p)))
            \<longrightarrow> Prompt p w = Prompt (snd (inputIsValid p (Itoa (DefaultMenuItem p))))
                              (retry (snd (inputIsValid p (Itoa (DefaultMenuItem p)))) w2))
       \<and> (line = [] \<and> \<not> IsMenu p \<and> \<not> fst (inputIsValid p (Default p))
            \<longrightarrow> Prompt p w = Prompt (snd (inputIsValid p (Default p)))
                              (retry (snd (inputIsValid p (Default p))) w2))
       \<and> (line \<noteq> [] \<and> fst (inputIsValid p line)
            \<longrightarrow> Prompt p w = Some (line, snd (inputIsValid p line), w2))
       \<and> (line \<noteq> [] \<and> \<not> fst (inputIsValid p line)
            \<longrightarrow> Prompt p w = Prompt (snd (inputIsValid p line))
                              (retry (snd (inputIsValid p line)) w2))"
  using Prompt_read [OF assms] by (simp add: substituted_def)

theorem empty_input_fallback_witness:
  "\<not> UseDefault fussy \<and> \<not> skip (terminal [Some [], Some ''a''])
   \<and> readInput fussy (Print (msg fussy) (terminal [Some [], Some ''a'']))
       = ([], (Print (msg fussy) (terminal [Some [], Some ''a'']))\<lparr>stdin := [Some ''a''], reads := 1\<rparr>)
   \<and> \<not> IsMenu fussy \<and> fst (inputIsValid fussy []) \<and> \<not> fst (inputIsValid fussy (Default fussy))
   \<and> Prompt fussy (terminal [Some [], Some ''a''])
       = Prompt (snd (inputIsValid fussy (Default fussy)))
           (retry (snd (inputIsValid fussy (Default fussy)))
              ((Print (msg fussy) (terminal [Some [], Some ''a'']))\<lparr>stdin := [Some ''a''], reads := 1\<rparr>))"
proof -
  have h: "\<not> UseDefault fussy" "\<not> skip (terminal [Some [], Some ''a''])"
    by (simp_all add: fussy_config terminal_config)
  have rd: "readInput fussy (Print (msg fussy) (terminal [Some [], Some ''a'']))
       = ([], (Print (msg fussy) (terminal [Some [], Some ''a'']))\<lparr>stdin := [Some ''a''], reads := 1\<rparr>)"
    by (simp add: readInput_echo [where t = "[]" and rest = "[Some ''a'']"] fussy_config
          Print_stdin Print_reads terminal_config TrimRight_def)
  from empty_input_fallback [OF h rd] h rd show ?thesis
    by (simp add: fussy_config fussy_valid)
qed

subsection \<open>C7: no choices and no pattern\<close>

text \<open>
  C7 as stated: for every Prompter without choices and without a pattern any line read
  is returned as it is. In menu mode the answer must also be a number that \<open>Atoi\<close>
  parses: the line \<open>abc\<close> is rejected, and \<open>Prompt\<close> goes on to return \<open>0\<close> at the end
  of the input.
\<close>

theorem emptyMenu_rejects_text:
  "Choices emptyMenu = [] \<and> Regexp emptyMenu = None
   \<and> \<not> fst (inputIsValid emptyMenu ''abc'')
   \<and> map_option fst (Prompt emptyMenu (terminal [Some ''abc''])) = Some ''0''"
proof -
  let ?w = "terminal [Some ''abc'']"
  let ?w2 = "(Print (msg emptyMenu) ?w)\<lparr>stdin := [], reads := 1\<rparr>"
  let ?p = "snd (inputIsValid emptyMenu ''abc'')"
  have rd: "readInput emptyMenu (Print (msg emptyMenu) ?w) = (''abc'', ?w2)"
    by (simp add: readInput_echo [where t = "''abc''" and rest = "[]"] emptyMenu_config
          Print_stdin Print_reads terminal_config TrimRight_def carriage_return_def newline_def)
  have first: "Prompt emptyMenu ?w = Prompt ?p (retry ?p ?w2)"
    using Prompt_read [OF _ _ rd]
    by (simp add: emptyMenu_config terminal_config substituted_def emptyMenu_invalid_abc)
  let ?w3 = "retry ?p ?w2"
  have w3: "\<not> skip ?w3" "stdin ?w3 = []"
    by (simp_all add: retry_skip retry_stdin skip_consumed terminal_config)
  obtain w4 where rd2: "readInput ?p (Print (msg ?p) ?w3) = ([], w4)"
    using readInput_eof [of ?p "Print (msg ?p) ?w3"] w3
    by (simp add: emptyMenu_next Print_stdin)
  have "fst (inputIsValid ?p (substituted ?p []))"
    by (simp add: substituted_def emptyMenu_next Itoa_0 emptyMenu_valid_0)
  with Prompt_read [OF _ _ rd2] w3(1)
  have "map_option fst (Prompt ?p ?w3) = Some ''0''"
    by (simp add: emptyMenu_next substituted_def Itoa_0)
  with first show ?thesis
    by (simp add: emptyMenu_config emptyMenu_invalid_abc)
qed

text \<open>
  C7, amended: for every Prompter that is not a menu, without choices and without a
  pattern (and a coherent cache), every string is valid, the empty string too; when
  \<open>Prompt\<close> reads, it returns the line read as it is, or \<open>Default\<close> when the line is
  empty; with an empty \<open>Default\<close> an empty line gives the empty answer.
\<close>

theorem accept_all:
  assumes "\<not> IsMenu p" "Choices p = []" "Regexp p = None" "regCoherent p"
  shows "fst (inputIsValid p s) \<and> fst (inputIsValid p [])
       \<and> (\<not> UseDefault p \<and> \<not> skip w \<and> readInput p (Print (msg p) w) = (line, w2)
            \<longrightarrow> Prompt p w = Some (if line = [] then Default p else line,
                                   snd (inputIsValid p (if line = [] then Default p else line)), w2)
                \<and> (line = [] \<and> Default p = [] \<longrightarrow> map_option fst (Prompt p w) = Some []))"
proof -
  have valid: "\<And>s. fst (inputIsValid p s)"
    using assms by (simp add: inputIsValid_fst regexp_allReg allReg_MatchString)
  have "\<not> UseDefault p \<and> \<not> skip w \<and> readInput p (Print (msg p) w) = (line, w2)
            \<longrightarrow> Prompt p w = Some (if line = [] then Default p else line,
                                   snd (inputIsValid p (if line = [] then Default p else line)), w2)
                \<and> (line = [] \<and> Default p = [] \<longrightarrow> map_option fst (Prompt p w) = Some [])"
  proof (intro impI, elim conjE)
    assume u: "\<not> UseDefault p" "\<not> skip w" and rd: "readInput p (Print (msg p) w) = (line, w2)"
    from Prompt_read [OF u rd] valid assms(1)
    show "Prompt p w = Some (if line = [] then Default p else line,
                                   snd (inputIsValid p (if line = [] then Default p else line)), w2)
                \<and> (line = [] \<and> Default p = [] \<longrightarrow> map_option fst (Prompt p w) = Some [])"
      by (simp add: substituted_def)
  qed
  with valid show ?thesis by (intro conjI)
qed

theorem accept_all_witness:
  "\<not> IsMenu prompter0 \<and> Choices prompter0 = [] \<and> Regexp prompter0 = None \<and> regCoherent prompter0
   \<and> \<not> UseDefault prompter0 \<and> \<not> skip (terminal [Some []]) \<and> Default prompter0 = []
   \<and> readInput prompter0 (Print (msg prompter0) (terminal [Some []]))
        = ([], (Print (msg prompter0) (terminal [Some []]))\<lparr>stdin := [], reads := 1\<rparr>)
   \<and> fst (inputIsValid prompter0 ''anything'')
   \<and> map_option fst (Prompt prompter0 (terminal [Some []])) = Some []"
proof -
  have h: "\<not> IsMenu prompter0" "Choices prompter0 = []" "Regexp prompter0 = None" "regCoherent prompter0"
    by (simp_all add: prompter0_config)
  have rd: "readInput prompter0 (Print (msg prompter0) (terminal [Some []]))
        = ([], (Print (msg prompter0) (terminal [Some []]))\<lparr>stdin := [], reads := 1\<rparr>)"
    by (simp add: readInput_echo [where t = "[]" and rest = "[]"] prompter0_config
          Print_stdin Print_reads terminal_config TrimRight_def)
  from accept_all [OF h, of "''anything''" "terminal [Some []]" "[]"
      "(Print (msg prompter0) (terminal [Some []]))\<lparr>stdin := [], reads := 1\<rparr>"] rd h
  show ?thesis
    by (simp add: prompter0_config terminal_config)
qed

subsection \<open>C8: the error message\<close>

text \<open>
  C8: \<open>errorMsg\<close> is \<open># Answer should match /\<close>, the source of the pattern and \<open>/\<close>
  when an explicit pattern is set; otherwise, for a Prompter that is not a menu,
  \<open># Enter\<close> and the one choice between backquotes, or, for several choices, the
  choices between backquotes, all but the last joined by a comma and a space and the last
  joined by \<open>or\<close>; otherwise (a menu, or no choices) it is empty.
\<close>

theorem errorMsg_text:
  "(Regexp p = Some r \<longrightarrow> errorMsg p = ''# Answer should match /'' @ String r @ ''/'')
   \<and> (Regexp p = None \<and> \<not> IsMenu p \<and> Choices p = [c]
        \<longrightarrow> errorMsg p = ''# Enter `'' @ c @ ''`'')
   \<and> (Regexp p = None \<and> \<not> IsMenu p \<and> Choices p = cs @ [c] \<and> cs \<noteq> []
        \<longrightarrow> errorMsg p = ''# Enter '' @ Join (map (\<lambda>v. ''`'' @ v @ ''`'') cs) '', ''
                            @ '' or `'' @ c @ ''`'')
   \<and> (Regexp p = None \<and> \<not> IsMenu p \<and> Choices p = [''a'', ''b'', ''c'']
        \<longrightarrow> errorMsg p = ''# Enter `a`, `b` or `c`'')
   \<and> (Regexp p = None \<and> (IsMenu p \<or> Choices p = []) \<longrightarrow> errorMsg p = [])"
proof -
  have a: "Regexp p = Some r \<longrightarrow> errorMsg p = ''# Answer should match /'' @ String r @ ''/''"
    by (simp add: errorMsg_def)
  have b: "Regexp p = None \<and> \<not> IsMenu p \<and> Choices p = [c]
        \<longrightarrow> errorMsg p = ''# Enter `'' @ c @ ''`''"
    by (simp add: errorMsg_def)
  have c: "Regexp p = None \<and> \<not> IsMenu p \<and> Choices p = cs @ [c] \<and> cs \<noteq> []
        \<longrightarrow> errorMsg p = ''# Enter '' @ Join (map (\<lambda>v. ''`'' @ v @ ''`'') cs) '', ''
                            @ '' or `'' @ c @ ''`''"
    by (auto simp add: errorMsg_def Let_def nth_append)
  have d: "Regexp p = None \<and> \<not> IsMenu p \<and> Choices p = [''a'', ''b'', ''c'']
        \<longrightarrow> errorMsg p = ''# Enter `a`, `b` or `c`''"
    by (simp add: errorMsg_def Let_def)
  have e: "Regexp p = None \<and> (IsMenu p \<or> Choices p = []) \<longrightarrow> errorMsg p = []"
    by (auto simp add: errorMsg_def)
  from a b c d e show ?thesis by (intro conjI)
qed

theorem errorMsg_text_witness:
  "Regexp yesNo = None \<and> \<not> IsMenu yesNo \<and> Choices yesNo = [''y''] @ [''n''] \<and> [''y''] \<noteq> []
   \<and> errorMsg yesNo = ''# Enter `y` or `n`''
   \<and> Regexp patternMenu = Some allReg \<and> errorMsg patternMenu = ''# Answer should match /.*/''
   \<and> Regexp menu3 = None \<and> IsMenu menu3 \<and> errorMsg menu3 = []"
proof -
  have h: "Regexp yesNo = None" "\<not> IsMenu yesNo" "Choices yesNo = [''y''] @ [''n'']"
    by (simp_all add: yesNo_config)
  have s: "String allReg = ''.*''" by (simp add: allReg_def MustCompile_def)
  from errorMsg_text [where p = yesNo and cs = "[''y'']" and c = "''n''"] h
  have 1: "errorMsg yesNo = ''# Enter `y` or `n`''" by simp
  from errorMsg_text [where p = patternMenu and r = allReg] s
  have 2: "errorMsg patternMenu = ''# Answer should match /.*/''"
    by (simp add: patternMenu_config)
  from errorMsg_text [where p = menu3]
  have 3: "errorMsg menu3 = []" by (simp add: menu3_config)
  from 1 2 3 h show ?thesis
    by (simp add: patternMenu_config menu3_config)
qed

subsection \<open>C9: the early return does not validate\<close>

text \<open>
  C9: whenever \<open>UseDefault\<close> is set or \<open>skip\<close> holds, \<open>Prompt\<close> returns \<open>Default\<close>,
  valid or not: with the choices \<open>y\<close> and \<open>n\<close>, the default \<open>maybe\<close> and \<open>UseDefault\<close>
  set it returns \<open>maybe\<close>, which \<open>inputIsValid\<close> rejects.
\<close>

theorem auto_accept_unvalidated:
  "(UseDefault p \<or> skip w \<longrightarrow> Prompt p w = Some (Default p, p, Print (msg p) w))
   \<and> (UseDefault p \<and> Default p = ''maybe'' \<and> Choices p = [''y'', ''n''] \<and> \<not> IsMenu p
        \<and> Regexp p = None \<and> regCoherent p
      \<longrightarrow> Prompt p w = Some (''maybe'', p, Print (msg p) w)
          \<and> \<not> fst (inputIsValid p ''maybe''))"
proof -
  have a: "UseDefault p \<or> skip w \<longrightarrow> Prompt p w = Some (Default p, p, Print (msg p) w)"
    using Prompt_auto [of p w] by blast
  have b: "UseDefault p \<and> Default p = ''maybe'' \<and> Choices p = [''y'', ''n''] \<and> \<not> IsMenu p
        \<and> Regexp p = None \<and> regCoherent p
      \<longrightarrow> Prompt p w = Some (''maybe'', p, Print (msg p) w)
          \<and> \<not> fst (inputIsValid p ''maybe'')"
  proof (intro impI, elim conjE)
    assume u: "UseDefault p" "Default p = ''maybe''" and c: "Choices p = [''y'', ''n'']"
      and m: "\<not> IsMenu p" "Regexp p = None" "regCoherent p"
    have "\<not> fst (inputIsValid p ''maybe'')"
      using c m by (simp add: inputIsValid_fst regexp_choices)
    with a u show "Prompt p w = Some (''maybe'', p, Print (msg p) w)
          \<and> \<not> fst (inputIsValid p ''maybe'')" by simp
  qed
  from a b show ?thesis by (intro conjI)
qed

theorem auto_accept_unvalidated_witness:
  "UseDefault maybe \<and> Default maybe = ''maybe'' \<and> Choices maybe = [''y'', ''n'']
   \<and> \<not> IsMenu maybe \<and> Regexp maybe = None \<and> regCoherent maybe
   \<and> Prompt maybe (terminal [Some ''y'']) = Some (''maybe'', maybe, Print (msg maybe) (terminal [Some ''y'']))
   \<and> \<not> fst (inputIsValid maybe ''maybe'')"
proof -
  have h: "UseDefault maybe" "Default maybe = ''maybe''" "Choices maybe = [''y'', ''n'']"
    "\<not> IsMenu maybe" "Regexp maybe = None" "regCoherent maybe"
    by (simp_all add: maybe_def yesNo_def prompter0_def regCoherent_def)
  from auto_accept_unvalidated [of maybe "terminal [Some ''y'']"] h show ?thesis
    by simp
qed

subsection \<open>C10: an empty line in a menu without default\<close>




end
